theory Spec2Isabelle
  imports Complex_Main "HOL-Library.Word"
begin

section \<open>JavaScript strings\<close>

text \<open>
  A JavaScript string is a sequence of UTF-16 code units and \<open>.length\<close> counts code
  units, so a string is modelled as a list of 16-bit words. ASCII literals of the source
  are written as HOL strings and converted with \<open>ascii\<close>.
\<close>

type_synonym jsstring = "16 word list"

definition ascii :: "string \<Rightarrow> jsstring" where
  "ascii s = map (\<lambda>c. word_of_nat (of_char c)) s"

text \<open>The template-literal rendering \<open>${n}\<close> of a non-negative integer: its decimal digits.\<close>

fun decimal :: "nat \<Rightarrow> jsstring" where
  "decimal n =
     (if n < 10 then [word_of_nat (48 + n)]
      else decimal (n div 10) @ [word_of_nat (48 + n mod 10)])"

declare decimal.simps [simp del]

text \<open>Reading a decimal rendering back (used to show that the rendering is injective).\<close>

definition undecimal :: "jsstring \<Rightarrow> nat" where
  "undecimal ds = foldl (\<lambda>a d. 10 * a + (unat d - 48)) 0 ds"

text \<open>
  \<open>String.prototype.trim\<close> removes ECMAScript white space and line terminators (all of
  them single code units) from both ends. A string is truthy when it is not empty.
\<close>

definition js_whitespace :: "16 word \<Rightarrow> bool" where
  "js_whitespace c \<longleftrightarrow>
     c \<in> set [0x9, 0xA, 0xB, 0xC, 0xD, 0x20, 0xA0, 0x1680, 0x2000, 0x2001, 0x2002, 0x2003,
       0x2004, 0x2005, 0x2006, 0x2007, 0x2008, 0x2009, 0x200A, 0x2028, 0x2029, 0x202F,
       0x205F, 0x3000, 0xFEFF]"

definition trim :: "jsstring \<Rightarrow> jsstring" where
  "trim s = rev (dropWhile js_whitespace (rev (dropWhile js_whitespace s)))"

definition truthy :: "jsstring \<Rightarrow> bool" where
  "truthy s \<longleftrightarrow> s \<noteq> []"

text \<open>\<open>Array.prototype.join(sep)\<close> on an array of strings.\<close>

fun join :: "jsstring \<Rightarrow> jsstring list \<Rightarrow> jsstring" where
  "join sep [] = []"
| "join sep [x] = x"
| "join sep (x # y # ys) = x @ sep @ join sep (y # ys)"

text \<open>
  \<open>a || b\<close> where \<open>a\<close> is a string that may be undefined: the default is taken when
  \<open>a\<close> is undefined or empty.
\<close>

definition or_default :: "jsstring option \<Rightarrow> jsstring \<Rightarrow> jsstring" where
  "or_default a b = (case a of None \<Rightarrow> b | Some x \<Rightarrow> if truthy x then x else b)"

section \<open>Extraction results\<close>

text \<open>
  The object passed to the completion callbacks. \<open>PDFJSExtractionResult\<close> carries
  \<open>charCount\<close>, the result of the OCR fallback carries \<open>pageCount\<close>; both have
  \<open>success\<close>, \<open>text\<close> and \<open>error\<close> (null or absent is \<open>None\<close>).
\<close>

record extraction_result =
  success :: bool
  result_text :: jsstring
  error :: "jsstring option"

record pdfjs_result = extraction_result +
  charCount :: nat

record ocr_result = extraction_result +
  pageCount :: nat

section \<open>The OCR fallback component (PDFOCRFallback.tsx)\<close>

text \<open>
  What the capture-and-recognise part of \<open>processCurrentPage\<close> does for one page: the
  view reference is missing (nothing is captured), \<open>captureRef\<close> throws, the ML Kit
  call throws, or the page's text is recognised.
\<close>

datatype page_outcome = NoViewRef | CaptureFault | OcrFault | Recognized jsstring

text \<open>The status strings passed to \<open>onStatus\<close>, by their parameters.\<close>

datatype ocr_status = StatusLoaded nat | StatusProcessing nat nat

text \<open>
  The component's state: its \<open>useState\<close> cells and refs, the continuation of a
  \<open>processCurrentPage\<close> call suspended at an \<open>await\<close> (with the \<open>currentPage\<close> and
  \<open>totalPages\<close> its closure captured), and the calls made so far: the pages for which
  \<open>processCurrentPage\<close> was entered, the arguments of \<open>onComplete\<close> and of \<open>onStatus\<close>.
\<close>

record ocr_component =
  currentPage :: nat
  totalPages :: nat
  processing :: bool
  pageReady :: bool
  hasCompleted :: bool
  extractedTexts :: "jsstring list"
  displayCount :: nat
  inflight :: "(nat \<times> nat) option"
  started :: "nat list"
  completions :: "ocr_result list"
  statuses :: "ocr_status list"

definition ocr_init :: ocr_component where
  "ocr_init = \<lparr>currentPage = 1, totalPages = 0, processing = False, pageReady = False,
     hasCompleted = False, extractedTexts = [], displayCount = 0, inflight = None,
     started = [], completions = [], statuses = []\<rparr>"

text \<open>The entry pushed for page \<open>n\<close>: \<open>`--- Page ${currentPage} ---\n${pageText}`\<close>.\<close>

definition page_marker :: "nat \<Rightarrow> jsstring" where
  "page_marker n = ascii ''--- Page '' @ decimal n @ ascii '' ---''"

definition page_entry :: "nat \<Rightarrow> jsstring \<Rightarrow> jsstring" where
  "page_entry n pageText = page_marker n @ [0xA] @ pageText"

definition ocr_failure_message :: jsstring where
  "ocr_failure_message = ascii ''OCR could not extract meaningful text from the PDF''"

text \<open>
  \<open>finishExtraction\<close>, with the \<open>maxPages\<close> prop and the \<open>totalPages\<close> of the render
  that created the closure.
\<close>

definition finishExtraction :: "nat \<Rightarrow> nat \<Rightarrow> ocr_component \<Rightarrow> ocr_component" where
  "finishExtraction maxPages tp s =
     (if hasCompleted s then s
      else
        let combinedText = join [0xA, 0xA] (extractedTexts s);
            ok = 50 < length combinedText
        in s\<lparr>hasCompleted := True,
             completions := completions s @
               [\<lparr>success = ok, result_text = combinedText,
                 error = (if ok then None else Some ocr_failure_message),
                 pageCount = min tp maxPages\<rparr>]\<rparr>)"

text \<open>
  \<open>processCurrentPage\<close> up to its first \<open>await\<close>: the guard, \<open>setProcessing(true)\<close>
  and the status update.
\<close>

definition processCurrentPage_start :: "nat \<Rightarrow> ocr_component \<Rightarrow> ocr_component" where
  "processCurrentPage_start maxPages s =
     (if hasCompleted s then s
      else s\<lparr>processing := True,
             inflight := Some (currentPage s, totalPages s),
             started := started s @ [currentPage s],
             statuses := statuses s @
               [StatusProcessing (currentPage s) (min (totalPages s) maxPages)]\<rparr>)"

text \<open>
  The rest of \<open>processCurrentPage\<close>, run when the awaited capture and recognition have
  settled with \<open>out\<close>: the try block pushes the page's entry when the recognised text is
  not blank, every fault is caught, then the page advances or the extraction finishes.
\<close>

definition processCurrentPage_resume ::
  "nat \<Rightarrow> page_outcome \<Rightarrow> nat \<times> nat \<Rightarrow> ocr_component \<Rightarrow> ocr_component" where
  "processCurrentPage_resume maxPages out c s =
     (let cp = fst c; tp = snd c;
          s1 = (case out of
                  Recognized pageText \<Rightarrow>
                    if truthy (trim pageText)
                    then s\<lparr>extractedTexts := extractedTexts s @ [page_entry cp pageText],
                           displayCount := Suc (length (extractedTexts s))\<rparr>
                    else s
                | _ \<Rightarrow> s);
          s2 = s1\<lparr>processing := False, pageReady := False, inflight := None\<rparr>;
          pagesToProcess = min tp maxPages
      in if cp < pagesToProcess then s2\<lparr>currentPage := cp + 1\<rparr>
         else finishExtraction maxPages tp s2)"

definition handleLoadComplete :: "nat \<Rightarrow> ocr_component \<Rightarrow> ocr_component" where
  "handleLoadComplete numberOfPages s =
     s\<lparr>totalPages := numberOfPages, statuses := statuses s @ [StatusLoaded numberOfPages]\<rparr>"

text \<open>\<open>handlePageChanged\<close>: the timer it sets has fired.\<close>

definition handlePageChanged :: "nat \<Rightarrow> ocr_component \<Rightarrow> ocr_component" where
  "handlePageChanged page s = s\<lparr>pageReady := True\<rparr>"

definition render_error_message :: "jsstring option \<Rightarrow> jsstring" where
  "render_error_message msg =
     ascii ''Failed to render PDF for OCR: '' @ or_default msg (ascii ''Unknown error'')"

text \<open>\<open>handleError\<close> of PDFOCRFallback.tsx, with \<open>error?.message\<close>.\<close>

definition PDFOCRFallback_handleError ::
  "jsstring option \<Rightarrow> ocr_component \<Rightarrow> ocr_component" where
  "PDFOCRFallback_handleError msg s =
     (if \<not> hasCompleted s
      then s\<lparr>hasCompleted := True,
             completions := completions s @
               [\<lparr>success = False, result_text = [], error = Some (render_error_message msg),
                 pageCount = 0\<rparr>]\<rparr>
      else s)"

text \<open>
  The effect with dependencies \<open>[pageReady, currentPage, totalPages]\<close>: it runs after a
  render in which one of them changed.
\<close>

definition pageEffect :: "nat \<Rightarrow> ocr_component \<Rightarrow> ocr_component" where
  "pageEffect maxPages s =
     (if \<not> pageReady s \<or> processing s \<or> hasCompleted s then s
      else if totalPages s = 0 then s
      else processCurrentPage_start maxPages s)"

definition effect_deps :: "ocr_component \<Rightarrow> bool \<times> nat \<times> nat" where
  "effect_deps s = (pageReady s, currentPage s, totalPages s)"

text \<open>
  What reaches the component: the PDF view reports the page count, reports a rendered
  page, reports an error, or the awaited capture and recognition of the page in flight
  settle.
\<close>

datatype ocr_event =
  LoadComplete nat
| PageChanged nat
| RenderError "jsstring option"
| PageProcessed page_outcome

fun ocr_handle :: "nat \<Rightarrow> ocr_event \<Rightarrow> ocr_component \<Rightarrow> ocr_component" where
  "ocr_handle maxPages (LoadComplete n) s = handleLoadComplete n s"
| "ocr_handle maxPages (PageChanged p) s = handlePageChanged p s"
| "ocr_handle maxPages (RenderError msg) s = PDFOCRFallback_handleError msg s"
| "ocr_handle maxPages (PageProcessed out) s =
     (case inflight s of
        None \<Rightarrow> s
      | Some c \<Rightarrow> processCurrentPage_resume maxPages out c s)"

definition ocr_step :: "nat \<Rightarrow> ocr_event \<Rightarrow> ocr_component \<Rightarrow> ocr_component" where
  "ocr_step maxPages ev s =
     (let s' = ocr_handle maxPages ev s
      in if effect_deps s' \<noteq> effect_deps s then pageEffect maxPages s' else s')"

fun ocr_run :: "nat \<Rightarrow> ocr_event list \<Rightarrow> ocr_component \<Rightarrow> ocr_component" where
  "ocr_run maxPages [] s = s"
| "ocr_run maxPages (ev # evs) s = ocr_run maxPages evs (ocr_step maxPages ev s)"

text \<open>
  The events of a document of \<open>numPages\<close> pages whose view renders each requested page and
  whose page \<open>p\<close> is captured and recognised with outcome \<open>ocr p\<close>, for the first \<open>n\<close>
  pages.
\<close>

definition page_round :: "(nat \<Rightarrow> page_outcome) \<Rightarrow> nat \<Rightarrow> ocr_event list" where
  "page_round ocr p = [PageChanged p, PageProcessed (ocr p)]"

definition document_events :: "nat \<Rightarrow> (nat \<Rightarrow> page_outcome) \<Rightarrow> nat \<Rightarrow> ocr_event list" where
  "document_events numPages ocr n = LoadComplete numPages # concat (map (page_round ocr) [1..<Suc n])"

text \<open>The entries pages contribute to the accumulator.\<close>

definition contribution :: "(nat \<Rightarrow> page_outcome) \<Rightarrow> nat \<Rightarrow> jsstring list" where
  "contribution ocr p =
     (case ocr p of
        Recognized pageText \<Rightarrow> if truthy (trim pageText) then [page_entry p pageText] else []
      | _ \<Rightarrow> [])"

definition pages_processed :: "nat \<Rightarrow> nat \<Rightarrow> nat" where
  "pages_processed maxPages numPages = max 1 (min numPages maxPages)"

text \<open>
  The state after the load and \<open>k\<close> pages, and the state and the result once the last
  page is done.
\<close>

definition accumulated :: "(nat \<Rightarrow> page_outcome) \<Rightarrow> nat \<Rightarrow> jsstring list" where
  "accumulated ocr k = concat (map (contribution ocr) [1..<Suc k])"

definition mid_state :: "nat \<Rightarrow> nat \<Rightarrow> (nat \<Rightarrow> page_outcome) \<Rightarrow> nat \<Rightarrow> ocr_component" where
  "mid_state maxPages numPages ocr k =
     \<lparr>currentPage = Suc k, totalPages = numPages, processing = False, pageReady = False,
      hasCompleted = False, extractedTexts = accumulated ocr k,
      displayCount = length (accumulated ocr k), inflight = None,
      started = [1..<Suc k], completions = [],
      statuses = StatusLoaded numPages #
        map (\<lambda>p. StatusProcessing p (min numPages maxPages)) [1..<Suc k]\<rparr>"

definition final_result :: "nat \<Rightarrow> nat \<Rightarrow> (nat \<Rightarrow> page_outcome) \<Rightarrow> ocr_result" where
  "final_result maxPages numPages ocr =
     (let combinedText = join [0xA, 0xA] (accumulated ocr (pages_processed maxPages numPages))
      in \<lparr>success = 50 < length combinedText, result_text = combinedText,
          error = (if 50 < length combinedText then None else Some ocr_failure_message),
          pageCount = min numPages maxPages\<rparr>)"

definition final_state :: "nat \<Rightarrow> nat \<Rightarrow> (nat \<Rightarrow> page_outcome) \<Rightarrow> ocr_component" where
  "final_state maxPages numPages ocr =
     (let n = pages_processed maxPages numPages
      in \<lparr>currentPage = n, totalPages = numPages, processing = False, pageReady = False,
          hasCompleted = True, extractedTexts = accumulated ocr n,
          displayCount = length (accumulated ocr n), inflight = None,
          started = [1..<Suc n], completions = [final_result maxPages numPages ocr],
          statuses = StatusLoaded numPages #
            map (\<lambda>p. StatusProcessing p (min numPages maxPages)) [1..<Suc n]\<rparr>)"

text \<open>\<open>onComplete\<close> has been called exactly when the \<open>hasCompleted\<close> ref is set.\<close>

definition completion_inv :: "ocr_component \<Rightarrow> bool" where
  "completion_inv s \<longleftrightarrow> length (completions s) = (if hasCompleted s then 1 else 0)"

text \<open>The whole run of a document, and what \<open>onComplete\<close> received.\<close>

definition ocr_document :: "nat \<Rightarrow> nat \<Rightarrow> (nat \<Rightarrow> page_outcome) \<Rightarrow> ocr_component" where
  "ocr_document maxPages numPages ocr =
     ocr_run maxPages (document_events numPages ocr (pages_processed maxPages numPages)) ocr_init"

text \<open>Sample documents: every page recognised with the same 30 letters; page 2 failing
  in the recogniser; every page blank.\<close>

definition sample_text :: jsstring where
  "sample_text = replicate 30 0x61"

definition good_pages :: "nat \<Rightarrow> page_outcome" where
  "good_pages p = Recognized sample_text"

definition faulty_page2 :: "nat \<Rightarrow> page_outcome" where
  "faulty_page2 p = (if p = 2 then OcrFault else Recognized sample_text)"

definition blank_pages :: "nat \<Rightarrow> page_outcome" where
  "blank_pages p = Recognized [0x20, 0x20]"

section \<open>The PDF.js extractor component (PDFExtractor.tsx)\<close>

definition pdfjs_failure :: "jsstring \<Rightarrow> pdfjs_result" where
  "pdfjs_failure msg = \<lparr>success = False, result_text = [], error = Some msg, charCount = 0\<rparr>"

text \<open>
  The component's state: the \<open>hasExtracted\<close> ref, the \<open>html\<close>, \<open>loading\<close> and
  \<open>loadError\<close> cells, the effect's \<open>mounted\<close> variable, and the arguments of the calls
  of \<open>onExtracted\<close> so far. The effect's synchronous part has run in the initial state.
\<close>

record extractor =
  hasExtracted :: bool
  html :: "jsstring option"
  loading :: bool
  loadError :: "jsstring option"
  mounted :: bool
  extractions :: "pdfjs_result list"

definition extractor_init :: extractor where
  "extractor_init = \<lparr>hasExtracted = False, html = None, loading = True, loadError = None,
     mounted = True, extractions = []\<rparr>"

definition opt_truthy :: "jsstring option \<Rightarrow> bool" where
  "opt_truthy a = (case a of None \<Rightarrow> False | Some x \<Rightarrow> truthy x)"

text \<open>
  \<open>loadHTML\<close>. A generator either returns the page (\<open>Inr\<close>) or throws an error with a
  message (\<open>Inl\<close>); the offline generator's failure falls back to the online one, and a
  failure that reaches the outer \<open>catch\<close> is reported through \<open>onExtracted\<close>.
\<close>

definition loadHTML ::
  "bool \<Rightarrow> jsstring + jsstring \<Rightarrow> jsstring + jsstring \<Rightarrow> extractor \<Rightarrow> extractor" where
  "loadHTML forceOnline offline online s =
     (let generatedHtml =
            (if forceOnline then online
             else (case offline of Inr h \<Rightarrow> Inr h | Inl offlineError \<Rightarrow> online))
      in case generatedHtml of
           Inr h \<Rightarrow> if mounted s then s\<lparr>html := Some h, loading := False\<rparr> else s
         | Inl msg \<Rightarrow>
             if mounted s
             then s\<lparr>loadError := Some msg, loading := False,
                    extractions := extractions s @
                      [pdfjs_failure (ascii ''Failed to initialize PDF.js: '' @ msg)]\<rparr>
             else s)"

text \<open>
  \<open>handleMessage\<close>, given what \<open>parseExtractionResult\<close> does on the message's data: it
  returns a result, or throws (\<open>None\<close>).
\<close>

definition handleMessage :: "pdfjs_result option \<Rightarrow> extractor \<Rightarrow> extractor" where
  "handleMessage parsed s =
     (if hasExtracted s then s
      else case parsed of
             Some result \<Rightarrow> s\<lparr>hasExtracted := True, extractions := extractions s @ [result]\<rparr>
           | None \<Rightarrow>
               s\<lparr>extractions := extractions s @
                    [pdfjs_failure (ascii ''Failed to parse extraction result'')]\<rparr>)"

text \<open>\<open>handleError\<close> of PDFExtractor.tsx, with \<open>nativeEvent.description\<close>.\<close>

definition PDFExtractor_handleError :: "jsstring option \<Rightarrow> extractor \<Rightarrow> extractor" where
  "PDFExtractor_handleError description s =
     (if \<not> hasExtracted s
      then s\<lparr>hasExtracted := True,
             extractions := extractions s @
               [pdfjs_failure (ascii ''WebView failed to load: '' @
                  or_default description (ascii ''Unknown error''))]\<rparr>
      else s)"

text \<open>The WebView is part of the rendered tree, so its handlers can be called.\<close>

definition webview_rendered :: "extractor \<Rightarrow> bool" where
  "webview_rendered s \<longleftrightarrow>
     (if loading s then False
      else if opt_truthy (loadError s) \<or> \<not> opt_truthy (html s) then False
      else True)"

datatype extractor_event =
  HtmlLoaded bool "jsstring + jsstring" "jsstring + jsstring"
| Unmounted
| WebViewMessage "pdfjs_result option"
| WebViewError "jsstring option"

fun extractor_step :: "extractor_event \<Rightarrow> extractor \<Rightarrow> extractor" where
  "extractor_step (HtmlLoaded forceOnline offline online) s = loadHTML forceOnline offline online s"
| "extractor_step Unmounted s = s\<lparr>mounted := False\<rparr>"
| "extractor_step (WebViewMessage parsed) s =
     (if mounted s \<and> webview_rendered s then handleMessage parsed s else s)"
| "extractor_step (WebViewError description) s =
     (if mounted s \<and> webview_rendered s then PDFExtractor_handleError description s else s)"

fun extractor_run :: "extractor_event list \<Rightarrow> extractor \<Rightarrow> extractor" where
  "extractor_run [] s = s"
| "extractor_run (ev # evs) s = extractor_run evs (extractor_step ev s)"

text \<open>A generated page, a parsed result, and events none of which is a second load or a
  message that \<open>parseExtractionResult\<close> rejects.\<close>

definition sample_page :: jsstring where
  "sample_page = ascii ''<html></html>''"

definition sample_result :: pdfjs_result where
  "sample_result = \<lparr>success = True, result_text = replicate 60 0x61, error = None,
     charCount = 60\<rparr>"

fun regular_event :: "extractor_event \<Rightarrow> bool" where
  "regular_event (HtmlLoaded forceOnline offline online) = False"
| "regular_event Unmounted = True"
| "regular_event (WebViewMessage parsed) = (parsed \<noteq> None)"
| "regular_event (WebViewError description) = True"

definition extractor_inv :: "extractor \<Rightarrow> bool" where
  "extractor_inv s \<longleftrightarrow>
     length (extractions s) \<le> 1 \<and>
     (extractions s \<noteq> [] \<longrightarrow> hasExtracted s \<or> \<not> webview_rendered s)"

text \<open>
  \<open>loadHTML\<close> is called once by the effect and settles once: the events that can
  follow it are all but a second load.
\<close>

fun settled_event :: "extractor_event \<Rightarrow> bool" where
  "settled_event (HtmlLoaded forceOnline offline online) = False"
| "settled_event Unmounted = True"
| "settled_event (WebViewMessage parsed) = True"
| "settled_event (WebViewError description) = True"

section \<open>The screens that receive the PDF.js result\<close>













section \<open>The lexical index and the retriever\<close>

text \<open>
  Modelled from the spec: the \<open>Chunk\<close> and \<open>DocumentIndex\<close> of section 3. The indexer
  and the retriever (services/ai/rag, called through \<open>PDFQAService\<close>) are not among the
  sources. The postings map a term to its (chunk id, frequency) pairs; they are kept as
  an association list with one entry for each term.
\<close>

record chunk =
  chunk_id :: nat
  documentId :: nat
  ordinal :: nat
  chunk_text :: jsstring
  pageStart :: nat
  pageEnd :: nat
  termFrequencies :: "(jsstring \<times> nat) list"

record document_index =
  index_documentId :: nat
  chunks :: "chunk list"
  postings :: "(jsstring \<times> (nat \<times> nat) list) list"

text \<open>
  Modelled from the spec: the tokenizer of section 4.3, which splits a text into
  lowercase alphanumeric terms and discards the stopwords. The specification does not
  list the stopwords; they are a parameter.
\<close>

definition alnum :: "16 word \<Rightarrow> bool" where
  "alnum c \<longleftrightarrow> (0x30 \<le> c \<and> c \<le> 0x39) \<or> (0x41 \<le> c \<and> c \<le> 0x5A) \<or> (0x61 \<le> c \<and> c \<le> 0x7A)"

definition lowercase :: "16 word \<Rightarrow> 16 word" where
  "lowercase c = (if 0x41 \<le> c \<and> c \<le> 0x5A then c + 0x20 else c)"

fun terms_of :: "jsstring \<Rightarrow> jsstring \<Rightarrow> jsstring list" where
  "terms_of cur [] = (if cur = [] then [] else [cur])"
| "terms_of cur (c # cs) =
     (if alnum c then terms_of (cur @ [lowercase c]) cs
      else (if cur = [] then [] else [cur]) @ terms_of [] cs)"

definition tokenize :: "jsstring list \<Rightarrow> jsstring \<Rightarrow> jsstring list" where
  "tokenize stopwords t = filter (\<lambda>w. w \<notin> set stopwords) (terms_of [] t)"

text \<open>
  Modelled from the spec: the indexer \<open>build\<close> of section 4.3, which records the term
  frequencies of every chunk and builds the postings from them.
\<close>

definition term_frequencies :: "jsstring list \<Rightarrow> (jsstring \<times> nat) list" where
  "term_frequencies ts = map (\<lambda>t. (t, count_list ts t)) (remdups ts)"

definition index_chunk :: "jsstring list \<Rightarrow> chunk \<Rightarrow> chunk" where
  "index_chunk stopwords c =
     c\<lparr>termFrequencies := term_frequencies (tokenize stopwords (chunk_text c))\<rparr>"

definition postings_of :: "chunk list \<Rightarrow> (jsstring \<times> (nat \<times> nat) list) list" where
  "postings_of cs =
     map (\<lambda>t. (t, concat (map (\<lambda>c. map (\<lambda>p. (chunk_id c, snd p))
                   (filter (\<lambda>p. fst p = t) (termFrequencies c))) cs)))
       (remdups (concat (map (\<lambda>c. map fst (termFrequencies c)) cs)))"

definition build :: "jsstring list \<Rightarrow> nat \<Rightarrow> chunk list \<Rightarrow> document_index" where
  "build stopwords d cs =
     (let indexed = map (index_chunk stopwords) cs
      in \<lparr>index_documentId = d, chunks = indexed, postings = postings_of indexed\<rparr>)"

text \<open>
  Modelled from the spec: the retriever of section 4.4. The candidates are the chunks
  that share a term with the question; the score of a chunk is the sum over the
  question's terms of the term's frequency in the chunk times
  \<open>ln (1 + totalChunks / documentFrequency)\<close>; the result is the first \<open>k\<close> candidates by
  descending score, ties by ascending ordinal.
\<close>

definition shares_term :: "jsstring list \<Rightarrow> chunk \<Rightarrow> bool" where
  "shares_term qs c \<longleftrightarrow> list_ex (\<lambda>t. t \<in> fst ` set (termFrequencies c)) qs"

definition term_frequency :: "chunk \<Rightarrow> jsstring \<Rightarrow> nat" where
  "term_frequency c t = (case map_of (termFrequencies c) t of None \<Rightarrow> 0 | Some f \<Rightarrow> f)"

definition document_frequency :: "document_index \<Rightarrow> jsstring \<Rightarrow> nat" where
  "document_frequency idx t =
     length (filter (\<lambda>c. t \<in> fst ` set (termFrequencies c)) (chunks idx))"

definition idf :: "document_index \<Rightarrow> jsstring \<Rightarrow> real" where
  "idf idx t = ln (1 + real (length (chunks idx)) / real (document_frequency idx t))"

definition score :: "document_index \<Rightarrow> jsstring list \<Rightarrow> chunk \<Rightarrow> real" where
  "score idx qs c = (\<Sum>t\<leftarrow>remdups qs. real (term_frequency c t) * idf idx t)"

definition retrieve ::
  "jsstring list \<Rightarrow> document_index \<Rightarrow> jsstring \<Rightarrow> nat \<Rightarrow> (chunk \<times> real) list" where
  "retrieve stopwords idx question k =
     (let qs = tokenize stopwords question;
          candidates = filter (shares_term qs) (chunks idx);
          ranked = sort_key (\<lambda>c. - score idx qs c) (sort_key ordinal candidates)
      in take k (map (\<lambda>c. (c, score idx qs c)) ranked))"

text \<open>The scenario of section 8: one chunk about cats, and the question \<open>fur\<close>.\<close>

definition cats_chunk :: chunk where
  "cats_chunk = \<lparr>chunk_id = 0, documentId = 1, ordinal = 0,
     chunk_text = ascii ''Cats are mammals. Cats have fur.'', pageStart = 1, pageEnd = 1,
     termFrequencies = []\<rparr>"

definition some_stopwords :: "jsstring list" where
  "some_stopwords = [ascii ''are'', ascii ''have'', ascii ''the'']"

section \<open>Lemmas: strings\<close>

lemma digit_unat: "d < 10 \<Longrightarrow> unat (word_of_nat (48 + d) :: 16 word) = 48 + d"
  unfolding unat_of_nat by simp

lemma undecimal_decimal: "undecimal (decimal n) = n"
proof (induction n rule: decimal.induct)
  case (1 n)
  show ?case
  proof (cases "n < 10")
    case True
    then show ?thesis
      using digit_unat [of n]
      by (subst decimal.simps) (simp add: undecimal_def del: of_nat_add)
  next
    case False
    with "1" have ih: "undecimal (decimal (n div 10)) = n div 10" by simp
    have "unat (word_of_nat (48 + n mod 10) :: 16 word) = 48 + n mod 10"
      by (rule digit_unat) simp
    with ih False show ?thesis
      by (subst decimal.simps) (simp add: undecimal_def del: of_nat_add)
  qed
qed

lemma decimal_inj: "decimal m = decimal n \<Longrightarrow> m = n"
  by (metis undecimal_decimal)

lemma page_marker_inj: "page_marker m = page_marker n \<Longrightarrow> m = n"
  by (simp add: page_marker_def decimal_inj)

lemma sample_text_not_blank: "truthy (trim sample_text)"
  by code_simp

section \<open>Lemmas: the OCR fallback loop\<close>

lemma ocr_run_append: "ocr_run m (xs @ ys) s = ocr_run m ys (ocr_run m xs s)"
  by (induction xs arbitrary: s) simp_all

lemma accumulated_Suc: "accumulated ocr (Suc k) = accumulated ocr k @ contribution ocr (Suc k)"
  by (simp add: accumulated_def)

lemma document_events_Suc:
  "document_events T ocr (Suc k) = document_events T ocr k @ page_round ocr (Suc k)"
  by (simp add: document_events_def)

lemma load_state: "ocr_run m (document_events T ocr 0) ocr_init = mid_state m T ocr 0"
  by (simp add: document_events_def ocr_step_def handleLoadComplete_def effect_deps_def
      pageEffect_def ocr_init_def mid_state_def accumulated_def Let_def)

lemma round_advance:
  assumes "T \<noteq> 0" "Suc k < min T m"
  shows "ocr_run m (page_round ocr (Suc k)) (mid_state m T ocr k) = mid_state m T ocr (Suc k)"
  using assms
  by (cases "ocr (Suc k)")
     (simp_all add: page_round_def ocr_step_def handlePageChanged_def effect_deps_def
      pageEffect_def processCurrentPage_start_def processCurrentPage_resume_def
      mid_state_def accumulated_Suc contribution_def Let_def)

lemma round_finish:
  assumes "T \<noteq> 0" "\<not> Suc k < min T m" "pages_processed m T = Suc k"
  shows "ocr_run m (page_round ocr (Suc k)) (mid_state m T ocr k) = final_state m T ocr"
  using assms
  by (cases "ocr (Suc k)")
     (simp_all add: page_round_def ocr_step_def handlePageChanged_def effect_deps_def
      pageEffect_def processCurrentPage_start_def processCurrentPage_resume_def
      finishExtraction_def final_state_def final_result_def
      mid_state_def accumulated_Suc contribution_def Let_def)

lemma pages_before_last:
  assumes "T \<noteq> 0" "k < pages_processed m T"
  shows "ocr_run m (document_events T ocr k) ocr_init = mid_state m T ocr k"
  using assms
proof (induction k)
  case 0
  show ?case by (rule load_state)
next
  case (Suc k)
  from Suc.prems have lt: "Suc k < min T m"
    unfolding pages_processed_def by arith
  from Suc.prems have "k < pages_processed m T" by simp
  with Suc.IH Suc.prems(1)
  have "ocr_run m (document_events T ocr k) ocr_init = mid_state m T ocr k" by simp
  then show ?case
    by (simp add: document_events_Suc ocr_run_append round_advance [OF Suc.prems(1) lt])
qed

lemma whole_document:
  assumes "T \<noteq> 0"
  shows "ocr_document m T ocr = final_state m T ocr"
proof -
  obtain k where k: "pages_processed m T = Suc k"
    by (cases "pages_processed m T") (simp_all add: pages_processed_def)
  then have "k < pages_processed m T" by simp
  then have mid: "ocr_run m (document_events T ocr k) ocr_init = mid_state m T ocr k"
    using assms by (rule pages_before_last [rotated])
  have last: "\<not> Suc k < min T m"
    using k unfolding pages_processed_def by arith
  show ?thesis
    by (simp add: ocr_document_def k document_events_Suc ocr_run_append mid
        round_finish [OF assms last k])
qed

text \<open>Once \<open>hasCompleted\<close> is set, no event starts a page or calls \<open>onComplete\<close>.\<close>

lemma completed_step:
  assumes "hasCompleted s"
  shows "hasCompleted (ocr_step m ev s) \<and> completions (ocr_step m ev s) = completions s \<and>
         started (ocr_step m ev s) = started s"
  using assms
  by (cases ev)
     (auto simp: ocr_step_def Let_def pageEffect_def processCurrentPage_start_def
        processCurrentPage_resume_def finishExtraction_def handleLoadComplete_def
        handlePageChanged_def PDFOCRFallback_handleError_def
        split: option.splits page_outcome.splits)

lemma completed_run:
  assumes "hasCompleted s"
  shows "hasCompleted (ocr_run m evs s) \<and> completions (ocr_run m evs s) = completions s \<and>
         started (ocr_run m evs s) = started s"
  using assms
proof (induction evs arbitrary: s)
  case Nil
  then show ?case by simp
next
  case (Cons ev evs)
  from completed_step [OF Cons.prems, of m ev] Cons.IH [of "ocr_step m ev s"]
  show ?case by simp
qed

text \<open>\<open>onComplete\<close> has been called once when \<open>hasCompleted\<close> is set, and not before.\<close>

lemma completion_inv_step:
  assumes "completion_inv s"
  shows "completion_inv (ocr_step m ev s)"
  using assms
  by (cases ev)
     (auto simp: completion_inv_def ocr_step_def Let_def pageEffect_def
        processCurrentPage_start_def processCurrentPage_resume_def finishExtraction_def
        handleLoadComplete_def handlePageChanged_def PDFOCRFallback_handleError_def
        split: option.splits page_outcome.splits if_splits)

lemma completion_inv_run:
  assumes "completion_inv s"
  shows "completion_inv (ocr_run m evs s)"
  using assms
  by (induction evs arbitrary: s) (simp_all add: completion_inv_step)

lemma ocr_completes_at_most_once: "length (completions (ocr_run m evs ocr_init)) \<le> 1"
proof -
  have "completion_inv ocr_init"
    by (simp add: completion_inv_def ocr_init_def)
  then have "completion_inv (ocr_run m evs ocr_init)"
    by (rule completion_inv_run)
  then show ?thesis
    by (simp add: completion_inv_def split: if_splits)
qed

text \<open>A page whose capture or recognition fails, or whose text is blank, adds nothing.\<close>

lemma concat_map_skip:
  assumes "f p = []"
  shows "concat (map f xs) = concat (map f (filter (\<lambda>q. q \<noteq> p) xs))"
  using assms by (induction xs) simp_all

lemma fault_contribution:
  assumes "ocr p \<in> {NoViewRef, CaptureFault, OcrFault}"
  shows "contribution ocr p = []"
  using assms by (auto simp: contribution_def)

lemma resume_fault:
  assumes "inflight s = Some (cp, tp)" "out \<in> {NoViewRef, CaptureFault, OcrFault}"
  shows "extractedTexts (ocr_step m (PageProcessed out) s) = extractedTexts s \<and>
         (cp < min tp m \<longrightarrow>
            currentPage (ocr_step m (PageProcessed out) s) = cp + 1 \<and>
            completions (ocr_step m (PageProcessed out) s) = completions s \<and>
            hasCompleted (ocr_step m (PageProcessed out) s) = hasCompleted s)"
  using assms
  by (auto simp: ocr_step_def Let_def pageEffect_def processCurrentPage_resume_def
      processCurrentPage_start_def finishExtraction_def)

lemma resume_recognized:
  assumes "inflight s = Some (n, tp)"
  shows "extractedTexts (ocr_step m (PageProcessed (Recognized pageText)) s) =
         (if truthy (trim pageText) then extractedTexts s @ [page_entry n pageText]
          else extractedTexts s)"
  using assms
  by (auto simp: ocr_step_def Let_def pageEffect_def processCurrentPage_resume_def
      processCurrentPage_start_def finishExtraction_def)

lemma render_error_step:
  assumes "\<not> hasCompleted s"
  shows "completions (ocr_step m (RenderError msg) s) =
           completions s @ [\<lparr>success = False, result_text = [],
             error = Some (render_error_message msg), pageCount = 0\<rparr>] \<and>
         hasCompleted (ocr_step m (RenderError msg) s)"
  using assms
  by (auto simp: ocr_step_def Let_def pageEffect_def PDFOCRFallback_handleError_def
      effect_deps_def)

section \<open>The OCR fallback loop: pages, faults and the terminal result\<close>

text \<open>
  The pages of a document. For a document with at least one page whose view reports
  every requested page as rendered and no error, \<open>processCurrentPage\<close> is entered for
  exactly the pages 1 to \<open>max 1 (min totalPages maxPages)\<close> in ascending order, which
  is \<open>min totalPages maxPages\<close> for every cap of at least 1; the loop has not completed
  before the last of them, it then calls \<open>onComplete\<close> once, and no later event starts
  another page.
\<close>

lemma ocr_pages_in_order:
  assumes "numPages \<noteq> 0"
  shows "started (ocr_document maxPages numPages ocr) =
           [1..<Suc (max 1 (min numPages maxPages))] \<and>
         (maxPages \<noteq> 0 \<longrightarrow>
            started (ocr_document maxPages numPages ocr) = [1..<Suc (min numPages maxPages)]) \<and>
         hasCompleted (ocr_document maxPages numPages ocr) \<and>
         length (completions (ocr_document maxPages numPages ocr)) = 1 \<and>
         (\<forall>k. k < max 1 (min numPages maxPages) \<longrightarrow>
            \<not> hasCompleted (ocr_run maxPages (document_events numPages ocr k) ocr_init)) \<and>
         (\<forall>evs. started (ocr_run maxPages evs (ocr_document maxPages numPages ocr)) =
            started (ocr_document maxPages numPages ocr))"
proof -
  let ?d = "ocr_document maxPages numPages ocr"
  have d: "?d = final_state maxPages numPages ocr"
    using assms by (rule whole_document)
  have pages: "started ?d = [1..<Suc (max 1 (min numPages maxPages))]"
    by (simp add: d final_state_def pages_processed_def Let_def)
  have capped: "maxPages \<noteq> 0 \<longrightarrow> started ?d = [1..<Suc (min numPages maxPages)]"
  proof
    assume "maxPages \<noteq> 0"
    with assms have "max 1 (min numPages maxPages) = min numPages maxPages" by arith
    with pages show "started ?d = [1..<Suc (min numPages maxPages)]" by (simp only:)
  qed
  have fin: "hasCompleted ?d"
    by (simp add: d final_state_def Let_def)
  have once: "length (completions ?d) = 1"
    by (simp add: d final_state_def Let_def)
  have before: "\<forall>k. k < max 1 (min numPages maxPages) \<longrightarrow>
      \<not> hasCompleted (ocr_run maxPages (document_events numPages ocr k) ocr_init)"
  proof (intro allI impI)
    fix k
    assume "k < max 1 (min numPages maxPages)"
    then have "k < pages_processed maxPages numPages"
      by (simp add: pages_processed_def)
    with assms
    have "ocr_run maxPages (document_events numPages ocr k) ocr_init =
          mid_state maxPages numPages ocr k"
      by (rule pages_before_last)
    then show "\<not> hasCompleted (ocr_run maxPages (document_events numPages ocr k) ocr_init)"
      by (simp add: mid_state_def)
  qed
  have after: "\<forall>evs. started (ocr_run maxPages evs ?d) = started ?d"
    using completed_run [OF fin] by blast
  from pages capped fin once before after show ?thesis by blast
qed

lemma ocr_pages_in_order_example:
  "started (ocr_document 10 12 good_pages) = [1..<11] \<and>
   hasCompleted (ocr_document 10 12 good_pages) \<and>
   length (completions (ocr_document 10 12 good_pages)) = 1"
proof -
  have "(12::nat) \<noteq> 0" by simp
  from ocr_pages_in_order [where numPages = 12 and maxPages = 10 and ocr = good_pages, OF this]
  show ?thesis by simp
qed

text \<open>
  C3. The loop processes the current page before it compares the page number with
  \<open>min totalPages maxPages\<close>, so under a cap of 0 it still processes page 1 of a
  three-page document, where the pages 1 to \<open>min 3 0\<close> are none; the result it then
  delivers reports \<open>pageCount = 0\<close>. For every cap of at least 1 the pages are exactly
  1 to \<open>min totalPages maxPages\<close> (lemma \<open>ocr_pages_in_order\<close>).
\<close>

theorem ocr_zero_cap_processes_first_page:
  "started (ocr_document 0 3 good_pages) = [1] \<and>
   [1..<Suc (min 3 0)] = ([]::nat list) \<and>
   map pageCount (completions (ocr_document 0 3 good_pages)) = [0]"
  by code_simp

text \<open>
  C2, as amended. A page whose capture or recognition fails (the view reference is
  missing, \<open>captureRef\<close> throws or the recogniser throws) adds nothing to the
  accumulator and the loop goes on: every page up to the cap is still processed, the
  accumulator holds the entries of all the other pages, and \<open>onComplete\<close> receives their
  join. In any state, such a page leaves the accumulator as it was and, when it is not
  the last page, moves to the next page without completing. An error reported by the PDF
  view, in contrast, completes the extraction at once with a failure and an empty text.
\<close>

theorem capture_or_ocr_fault_skips_page:
  assumes "numPages \<noteq> 0" "ocr p \<in> {NoViewRef, CaptureFault, OcrFault}"
  shows "started (ocr_document maxPages numPages ocr) =
           [1..<Suc (max 1 (min numPages maxPages))] \<and>
         extractedTexts (ocr_document maxPages numPages ocr) =
           concat (map (contribution ocr)
             (filter (\<lambda>q. q \<noteq> p) [1..<Suc (max 1 (min numPages maxPages))])) \<and>
         (\<exists>r. completions (ocr_document maxPages numPages ocr) = [r] \<and>
            result_text r = join [0xA, 0xA] (extractedTexts (ocr_document maxPages numPages ocr))) \<and>
         (\<forall>s cp tp. inflight s = Some (cp, tp) \<longrightarrow>
            extractedTexts (ocr_step maxPages (PageProcessed (ocr p)) s) = extractedTexts s \<and>
            (cp < min tp maxPages \<longrightarrow>
               currentPage (ocr_step maxPages (PageProcessed (ocr p)) s) = cp + 1 \<and>
               completions (ocr_step maxPages (PageProcessed (ocr p)) s) = completions s \<and>
               hasCompleted (ocr_step maxPages (PageProcessed (ocr p)) s) = hasCompleted s)) \<and>
         (\<forall>s msg. \<not> hasCompleted s \<longrightarrow>
            hasCompleted (ocr_step maxPages (RenderError msg) s) \<and>
            completions (ocr_step maxPages (RenderError msg) s) =
              completions s @ [\<lparr>success = False, result_text = [],
                error = Some (render_error_message msg), pageCount = 0\<rparr>])"
proof -
  let ?d = "ocr_document maxPages numPages ocr"
  let ?n = "max 1 (min numPages maxPages)"
  have d: "?d = final_state maxPages numPages ocr"
    using assms(1) by (rule whole_document)
  have skip: "contribution ocr p = []"
    using assms(2) by (rule fault_contribution)
  have pages: "started ?d = [1..<Suc ?n]"
    by (simp add: d final_state_def pages_processed_def Let_def)
  have "extractedTexts ?d = concat (map (contribution ocr) [1..<Suc ?n])"
    by (simp add: d final_state_def accumulated_def pages_processed_def Let_def)
  also have "\<dots> = concat (map (contribution ocr) (filter (\<lambda>q. q \<noteq> p) [1..<Suc ?n]))"
    using skip by (rule concat_map_skip)
  finally have texts: "extractedTexts ?d =
      concat (map (contribution ocr) (filter (\<lambda>q. q \<noteq> p) [1..<Suc ?n]))" .
  have result: "\<exists>r. completions ?d = [r] \<and> result_text r = join [0xA, 0xA] (extractedTexts ?d)"
    by (simp add: d final_state_def final_result_def Let_def)
  have page: "\<forall>s cp tp. inflight s = Some (cp, tp) \<longrightarrow>
      extractedTexts (ocr_step maxPages (PageProcessed (ocr p)) s) = extractedTexts s \<and>
      (cp < min tp maxPages \<longrightarrow>
         currentPage (ocr_step maxPages (PageProcessed (ocr p)) s) = cp + 1 \<and>
         completions (ocr_step maxPages (PageProcessed (ocr p)) s) = completions s \<and>
         hasCompleted (ocr_step maxPages (PageProcessed (ocr p)) s) = hasCompleted s)"
    using resume_fault [OF _ assms(2)] by blast
  have render: "\<forall>s msg. \<not> hasCompleted s \<longrightarrow>
      hasCompleted (ocr_step maxPages (RenderError msg) s) \<and>
      completions (ocr_step maxPages (RenderError msg) s) =
        completions s @ [\<lparr>success = False, result_text = [],
          error = Some (render_error_message msg), pageCount = 0\<rparr>]"
    using render_error_step by blast
  from pages texts result page render show ?thesis by blast
qed

theorem capture_or_ocr_fault_skips_page_witness:
  "started (ocr_document 10 3 faulty_page2) = [1, 2, 3] \<and>
   extractedTexts (ocr_document 10 3 faulty_page2) =
     [page_entry 1 sample_text, page_entry 3 sample_text]"
proof -
  have pages: "(3::nat) \<noteq> 0" by simp
  have fault: "faulty_page2 2 \<in> {NoViewRef, CaptureFault, OcrFault}"
    by (simp add: faulty_page2_def)
  have range: "[1..<Suc (max 1 (min 3 10))] = [1, 2, 3::nat]"
    by code_simp
  have others: "concat (map (contribution faulty_page2) (filter (\<lambda>q. q \<noteq> 2) [1, 2, 3])) =
      [page_entry 1 sample_text, page_entry 3 sample_text]"
    by (simp add: contribution_def faulty_page2_def sample_text_not_blank)
  from capture_or_ocr_fault_skips_page
      [where numPages = 3 and ocr = faulty_page2 and p = 2 and maxPages = 10, OF pages fault]
    range others
  show ?thesis by simp
qed

theorem render_error_aborts_counterexample:
  "started (ocr_run 10 (document_events 2 good_pages 1 @ [RenderError None] @
       page_round good_pages 2) ocr_init) = [1] \<and>
   map result_text (completions (ocr_run 10 (document_events 2 good_pages 1 @
       [RenderError None] @ page_round good_pages 2) ocr_init)) = [[]] \<and>
   map success (completions (ocr_run 10 (document_events 2 good_pages 1 @
       [RenderError None] @ page_round good_pages 2) ocr_init)) = [False]"
  by code_simp

text \<open>
  C4. When the loop finishes its last page, \<open>onComplete\<close> receives the entries of the
  pages (markers included) joined by blank lines; \<open>success\<close> is true exactly when that
  text is longer than 50 code units, the error is null when \<open>success\<close> is true and the
  message of \<open>finishExtraction\<close> otherwise. The same holds for \<open>finishExtraction\<close> on any
  accumulator that has not completed.
\<close>

theorem ocr_success_iff_over_50_chars:
  "(numPages \<noteq> 0 \<longrightarrow>
      (\<exists>r. completions (ocr_document maxPages numPages ocr) = [r] \<and>
         result_text r = join [0xA, 0xA]
           (concat (map (contribution ocr) [1..<Suc (max 1 (min numPages maxPages))])) \<and>
         (success r \<longleftrightarrow> 50 < length (result_text r)) \<and>
         (success r \<longrightarrow> error r = None) \<and>
         (\<not> success r \<longrightarrow> error r = Some ocr_failure_message))) \<and>
   (\<not> hasCompleted s \<longrightarrow>
      (\<exists>r. completions (finishExtraction maxPages tp s) = completions s @ [r] \<and>
         result_text r = join [0xA, 0xA] (extractedTexts s) \<and>
         (success r \<longleftrightarrow> 50 < length (join [0xA, 0xA] (extractedTexts s))) \<and>
         (success r \<longrightarrow> error r = None) \<and>
         (\<not> success r \<longrightarrow> error r = Some ocr_failure_message)))"
proof (intro conjI impI)
  assume pages: "numPages \<noteq> 0"
  let ?r = "final_result maxPages numPages ocr"
  have "completions (ocr_document maxPages numPages ocr) = [?r]"
    by (simp add: whole_document [OF pages] final_state_def Let_def)
  moreover have "result_text ?r = join [0xA, 0xA]
      (concat (map (contribution ocr) [1..<Suc (max 1 (min numPages maxPages))]))"
    by (simp add: final_result_def accumulated_def pages_processed_def Let_def)
  moreover have "success ?r \<longleftrightarrow> 50 < length (result_text ?r)"
    by (simp add: final_result_def Let_def)
  moreover have "success ?r \<longrightarrow> error ?r = None"
    by (simp add: final_result_def Let_def)
  moreover have "\<not> success ?r \<longrightarrow> error ?r = Some ocr_failure_message"
    by (simp add: final_result_def Let_def)
  ultimately show "\<exists>r. completions (ocr_document maxPages numPages ocr) = [r] \<and>
      result_text r = join [0xA, 0xA]
        (concat (map (contribution ocr) [1..<Suc (max 1 (min numPages maxPages))])) \<and>
      (success r \<longleftrightarrow> 50 < length (result_text r)) \<and>
      (success r \<longrightarrow> error r = None) \<and>
      (\<not> success r \<longrightarrow> error r = Some ocr_failure_message)"
    by blast
next
  assume "\<not> hasCompleted s"
  then show "\<exists>r. completions (finishExtraction maxPages tp s) = completions s @ [r] \<and>
      result_text r = join [0xA, 0xA] (extractedTexts s) \<and>
      (success r \<longleftrightarrow> 50 < length (join [0xA, 0xA] (extractedTexts s))) \<and>
      (success r \<longrightarrow> error r = None) \<and>
      (\<not> success r \<longrightarrow> error r = Some ocr_failure_message)"
    by (simp add: finishExtraction_def Let_def)
qed

theorem ocr_success_iff_over_50_chars_witness:
  "(\<exists>r. completions (ocr_document 10 2 good_pages) = [r] \<and> success r \<and> error r = None \<and>
      length (result_text r) = 92) \<and>
   (\<exists>r. completions (finishExtraction 10 1 ocr_init) = [r] \<and> \<not> success r \<and>
      result_text r = [] \<and> error r = Some ocr_failure_message)"
proof -
  have len: "length (join [0xA, 0xA]
      (concat (map (contribution good_pages) [1..<Suc (max 1 (min 2 10))]))) = 92"
    by code_simp
  have fresh: "\<not> hasCompleted ocr_init" "completions ocr_init = []" "extractedTexts ocr_init = []"
    by (simp_all add: ocr_init_def)
  from ocr_success_iff_over_50_chars
    [where numPages = 2 and maxPages = 10 and ocr = good_pages and s = ocr_init and tp = 1]
  have doc: "\<exists>r. completions (ocr_document 10 2 good_pages) = [r] \<and>
         result_text r = join [0xA, 0xA]
           (concat (map (contribution good_pages) [1..<Suc (max 1 (min 2 10))])) \<and>
         (success r \<longleftrightarrow> 50 < length (result_text r)) \<and>
         (success r \<longrightarrow> error r = None) \<and>
         (\<not> success r \<longrightarrow> error r = Some ocr_failure_message)"
    and fin: "\<exists>r. completions (finishExtraction 10 1 ocr_init) = completions ocr_init @ [r] \<and>
         result_text r = join [0xA, 0xA] (extractedTexts ocr_init) \<and>
         (success r \<longleftrightarrow> 50 < length (join [0xA, 0xA] (extractedTexts ocr_init))) \<and>
         (success r \<longrightarrow> error r = None) \<and>
         (\<not> success r \<longrightarrow> error r = Some ocr_failure_message)"
    using fresh(1) by simp_all
  from doc len have a: "\<exists>r. completions (ocr_document 10 2 good_pages) = [r] \<and> success r \<and>
      error r = None \<and> length (result_text r) = 92"
    by auto
  from fin fresh have b: "\<exists>r. completions (finishExtraction 10 1 ocr_init) = [r] \<and>
      \<not> success r \<and> result_text r = [] \<and> error r = Some ocr_failure_message"
    by auto
  from a b show ?thesis by blast
qed

text \<open>
  C6, as amended. When the document has at least as many pages as the cap (at least 1),
  \<open>onComplete\<close> receives exactly what it receives for a document that has only the
  first \<open>maxPages\<close> of these pages: \<open>pageCount\<close> is the cap and no field tells whether
  pages were left out. The document's page count goes to the status callback only,
  when the PDF has loaded.
\<close>

theorem truncated_result_equals_capped_document:
  assumes "maxPages \<noteq> 0" "maxPages \<le> numPages"
  shows "completions (ocr_document maxPages numPages ocr) =
           completions (ocr_document maxPages maxPages ocr) \<and>
         map pageCount (completions (ocr_document maxPages numPages ocr)) = [maxPages] \<and>
         started (ocr_document maxPages numPages ocr) = [1..<Suc maxPages] \<and>
         statuses (ocr_document maxPages numPages ocr) =
           StatusLoaded numPages # map (\<lambda>p. StatusProcessing p maxPages) [1..<Suc maxPages]"
proof -
  from assms have pages: "numPages \<noteq> 0" by simp
  from assms have n: "pages_processed maxPages numPages = maxPages"
    unfolding pages_processed_def by arith
  from assms have n': "pages_processed maxPages maxPages = maxPages"
    unfolding pages_processed_def by arith
  from assms have cap: "min numPages maxPages = maxPages" by simp
  have same: "final_result maxPages numPages ocr = final_result maxPages maxPages ocr"
    by (simp add: final_result_def n n' cap)
  have "completions (ocr_document maxPages numPages ocr) = [final_result maxPages numPages ocr]"
    by (simp add: whole_document [OF pages] final_state_def Let_def)
  moreover
  have "completions (ocr_document maxPages maxPages ocr) = [final_result maxPages maxPages ocr]"
    by (simp add: whole_document [OF assms(1)] final_state_def Let_def)
  moreover have "pageCount (final_result maxPages numPages ocr) = maxPages"
    by (simp add: final_result_def cap Let_def)
  moreover have "started (ocr_document maxPages numPages ocr) = [1..<Suc maxPages]"
    by (simp add: whole_document [OF pages] final_state_def n Let_def)
  moreover have "statuses (ocr_document maxPages numPages ocr) =
      StatusLoaded numPages # map (\<lambda>p. StatusProcessing p maxPages) [1..<Suc maxPages]"
    by (simp add: whole_document [OF pages] final_state_def n cap Let_def)
  ultimately show ?thesis
    using same by simp
qed

theorem truncated_result_equals_capped_document_witness:
  "completions (ocr_document 2 5 faulty_page2) = completions (ocr_document 2 2 faulty_page2) \<and>
   map pageCount (completions (ocr_document 2 5 faulty_page2)) = [2] \<and>
   started (ocr_document 2 5 faulty_page2) = [1..<Suc 2]"
proof -
  have cap: "(2::nat) \<noteq> 0" and more: "(2::nat) \<le> 5" by simp_all
  from truncated_result_equals_capped_document
    [where maxPages = 2 and numPages = 5 and ocr = faulty_page2, OF cap more]
  show ?thesis by blast
qed

theorem truncation_hidden_counterexample:
  "completions (ocr_document 10 12 good_pages) = completions (ocr_document 10 10 good_pages) \<and>
   (10::nat) < 12"
  by code_simp

text \<open>
  C7, as amended. When the recognised text of page \<open>n\<close> is not blank, the entry added
  for the page is the line \<open>--- Page n ---\<close>, a newline and the recognised text as it
  is; when the text is empty or only white space nothing is added, and no marker either.
  The marker determines the page number. After a whole document the accumulator holds
  these entries in page order.
\<close>

theorem nonblank_page_entry_is_marker_and_text:
  "(inflight s = Some (n, tp) \<and> truthy (trim pageText) \<longrightarrow>
      extractedTexts (ocr_step maxPages (PageProcessed (Recognized pageText)) s) =
        extractedTexts s @
          [ascii ''--- Page '' @ decimal n @ ascii '' ---'' @ [0xA] @ pageText]) \<and>
   (inflight s = Some (n, tp) \<and> \<not> truthy (trim pageText) \<longrightarrow>
      extractedTexts (ocr_step maxPages (PageProcessed (Recognized pageText)) s) =
        extractedTexts s) \<and>
   (page_marker n = page_marker n' \<longrightarrow> n = n') \<and>
   (numPages \<noteq> 0 \<longrightarrow>
      extractedTexts (ocr_document maxPages numPages ocr) =
        concat (map (contribution ocr) [1..<Suc (max 1 (min numPages maxPages))]))"
proof (intro conjI impI)
  assume "inflight s = Some (n, tp) \<and> truthy (trim pageText)"
  then show "extractedTexts (ocr_step maxPages (PageProcessed (Recognized pageText)) s) =
      extractedTexts s @ [ascii ''--- Page '' @ decimal n @ ascii '' ---'' @ [0xA] @ pageText]"
    by (simp add: resume_recognized page_entry_def page_marker_def)
next
  assume "inflight s = Some (n, tp) \<and> \<not> truthy (trim pageText)"
  then show "extractedTexts (ocr_step maxPages (PageProcessed (Recognized pageText)) s) =
      extractedTexts s"
    by (simp add: resume_recognized)
next
  assume "page_marker n = page_marker n'"
  then show "n = n'" by (rule page_marker_inj)
next
  assume "numPages \<noteq> 0"
  then show "extractedTexts (ocr_document maxPages numPages ocr) =
      concat (map (contribution ocr) [1..<Suc (max 1 (min numPages maxPages))])"
    by (simp add: whole_document final_state_def accumulated_def pages_processed_def Let_def)
qed

theorem nonblank_page_entry_is_marker_and_text_witness:
  "extractedTexts (ocr_step 10 (PageProcessed (Recognized sample_text))
      (ocr_run 10 [LoadComplete 5, PageChanged 1] ocr_init)) =
     [ascii ''--- Page 1 ---'' @ [0xA] @ sample_text] \<and>
   extractedTexts (ocr_document 10 2 good_pages) =
     [ascii ''--- Page 1 ---'' @ [0xA] @ sample_text, ascii ''--- Page 2 ---'' @ [0xA] @ sample_text]"
proof -
  let ?s = "ocr_run 10 [LoadComplete 5, PageChanged 1] ocr_init"
  have fl: "inflight ?s = Some (1, 5)" by code_simp
  have ex: "extractedTexts ?s = []" by code_simp
  have m1: "ascii ''--- Page '' @ decimal 1 @ ascii '' ---'' @ [0xA] @ sample_text =
      ascii ''--- Page 1 ---'' @ [0xA] @ sample_text"
    by code_simp
  have all: "concat (map (contribution good_pages) [1..<Suc (max 1 (min 2 10))]) =
      [ascii ''--- Page 1 ---'' @ [0xA] @ sample_text,
       ascii ''--- Page 2 ---'' @ [0xA] @ sample_text]"
    by code_simp
  from nonblank_page_entry_is_marker_and_text
    [where s = "?s" and n = 1 and tp = 5 and pageText = sample_text and maxPages = 10
       and numPages = 2 and ocr = good_pages]
    fl ex m1 all sample_text_not_blank
  show ?thesis by simp
qed

theorem blank_page_no_marker_counterexample:
  "started (ocr_document 10 1 blank_pages) = [1] \<and>
   blank_pages 1 = Recognized [0x20, 0x20] \<and>
   extractedTexts (ocr_document 10 1 blank_pages) = []"
  by code_simp

section \<open>The completion callbacks of the two components\<close>

lemma extractor_inv_load: "extractor_inv (loadHTML forceOnline offline online extractor_init)"
  by (auto simp: extractor_inv_def loadHTML_def extractor_init_def webview_rendered_def
      opt_truthy_def Let_def split: sum.splits)

lemma extractor_inv_step:
  assumes "extractor_inv s" "regular_event ev"
  shows "extractor_inv (extractor_step ev s)"
  using assms
  by (cases ev)
     (auto simp: extractor_inv_def handleMessage_def PDFExtractor_handleError_def
        webview_rendered_def split: if_splits)

lemma extractor_inv_run:
  assumes "extractor_inv s" "list_all regular_event evs"
  shows "extractor_inv (extractor_run evs s)"
  using assms
  by (induction evs arbitrary: s) (simp_all add: extractor_inv_step)

text \<open>
  As long as \<open>parseExtractionResult\<close> accepts every message, \<open>onExtracted\<close> is called at
  most once after a load.
\<close>

lemma extractor_once_without_parse_failure:
  assumes "list_all regular_event evs"
  shows "length (extractions
           (extractor_run (HtmlLoaded forceOnline offline online # evs) extractor_init)) \<le> 1"
  using extractor_inv_run [OF extractor_inv_load assms]
  by (simp add: extractor_inv_def)

text \<open>
  C10. The OCR fallback calls \<open>onComplete\<close> at most once whatever events arrive (lemma
  \<open>ocr_completes_at_most_once\<close>). The PDF.js extractor does not: the \<open>catch\<close> branch of
  \<open>handleMessage\<close> calls \<open>onExtracted\<close> without setting \<open>hasExtracted\<close>, so two
  messages that \<open>parseExtractionResult\<close> rejects give two calls, and a rejected message
  followed by a parsed one gives a failure and then a success.
\<close>

theorem onExtracted_called_twice_after_parse_failure:
  "map success (extractions (extractor_run
      [HtmlLoaded False (Inr sample_page) (Inr sample_page), WebViewMessage None,
       WebViewMessage None] extractor_init)) = [False, False] \<and>
   map success (extractions (extractor_run
      [HtmlLoaded False (Inr sample_page) (Inr sample_page), WebViewMessage None,
       WebViewMessage (Some sample_result)] extractor_init)) = [False, True]"
  by code_simp

text \<open>
  The handlers on errors. A thrown error is an input of the model (\<open>Inl\<close> of a
  generator, \<open>None\<close> of the parser, an error event), and every handler returns a state
  on it: nothing escapes. Under the handler's own guard (the extractor is mounted, the
  flag is not set) each of the four errors adds exactly one result with
  \<open>success = false\<close>, an empty text and the handler's message followed by the error's
  own; with the flag set, or unmounted, the handler changes nothing.
\<close>

lemma error_handlers_deliver_failure:
  "(mounted s \<longrightarrow>
      extractions (loadHTML True offline (Inl msg) s) = extractions s @
        [\<lparr>success = False, result_text = [],
          error = Some (ascii ''Failed to initialize PDF.js: '' @ msg), charCount = 0\<rparr>] \<and>
      extractions (loadHTML False (Inl msg') (Inl msg) s) = extractions s @
        [\<lparr>success = False, result_text = [],
          error = Some (ascii ''Failed to initialize PDF.js: '' @ msg), charCount = 0\<rparr>]) \<and>
   (\<not> hasExtracted s \<longrightarrow>
      extractions (PDFExtractor_handleError description s) = extractions s @
        [\<lparr>success = False, result_text = [],
          error = Some (ascii ''WebView failed to load: '' @
            or_default description (ascii ''Unknown error'')), charCount = 0\<rparr>] \<and>
      extractions (handleMessage None s) = extractions s @
        [\<lparr>success = False, result_text = [],
          error = Some (ascii ''Failed to parse extraction result''), charCount = 0\<rparr>]) \<and>
   (\<not> hasCompleted c \<longrightarrow>
      completions (PDFOCRFallback_handleError e c) = completions c @
        [\<lparr>success = False, result_text = [],
          error = Some (ascii ''Failed to render PDF for OCR: '' @
            or_default e (ascii ''Unknown error'')), pageCount = 0\<rparr>]) \<and>
   (hasExtracted s \<longrightarrow> PDFExtractor_handleError description s = s \<and> handleMessage parsed s = s) \<and>
   (hasCompleted c \<longrightarrow> PDFOCRFallback_handleError e c = c) \<and>
   (\<not> mounted s \<longrightarrow> loadHTML forceOnline offline online s = s)"
proof (intro conjI impI)
  assume "mounted s"
  then show "extractions (loadHTML True offline (Inl msg) s) = extractions s @
      [\<lparr>success = False, result_text = [],
        error = Some (ascii ''Failed to initialize PDF.js: '' @ msg), charCount = 0\<rparr>]"
    by (simp add: loadHTML_def pdfjs_failure_def)
next
  assume "mounted s"
  then show "extractions (loadHTML False (Inl msg') (Inl msg) s) = extractions s @
      [\<lparr>success = False, result_text = [],
        error = Some (ascii ''Failed to initialize PDF.js: '' @ msg), charCount = 0\<rparr>]"
    by (simp add: loadHTML_def pdfjs_failure_def)
next
  assume "\<not> hasExtracted s"
  then show "extractions (PDFExtractor_handleError description s) = extractions s @
      [\<lparr>success = False, result_text = [],
        error = Some (ascii ''WebView failed to load: '' @
          or_default description (ascii ''Unknown error'')), charCount = 0\<rparr>]"
    by (simp add: PDFExtractor_handleError_def pdfjs_failure_def)
next
  assume "\<not> hasExtracted s"
  then show "extractions (handleMessage None s) = extractions s @
      [\<lparr>success = False, result_text = [],
        error = Some (ascii ''Failed to parse extraction result''), charCount = 0\<rparr>]"
    by (simp add: handleMessage_def pdfjs_failure_def)
next
  assume "\<not> hasCompleted c"
  then show "completions (PDFOCRFallback_handleError e c) = completions c @
      [\<lparr>success = False, result_text = [],
        error = Some (ascii ''Failed to render PDF for OCR: '' @
          or_default e (ascii ''Unknown error'')), pageCount = 0\<rparr>]"
    by (simp add: PDFOCRFallback_handleError_def render_error_message_def)
next
  assume "hasExtracted s"
  then show "PDFExtractor_handleError description s = s"
    by (simp add: PDFExtractor_handleError_def)
next
  assume "hasExtracted s"
  then show "handleMessage parsed s = s"
    by (simp add: handleMessage_def)
next
  assume "hasCompleted c"
  then show "PDFOCRFallback_handleError e c = c"
    by (simp add: PDFOCRFallback_handleError_def)
next
  assume "\<not> mounted s"
  then show "loadHTML forceOnline offline online s = s"
    by (simp add: loadHTML_def Let_def split: sum.splits)
qed

lemma error_handlers_deliver_failure_example:
  "extractions (loadHTML True (Inr sample_page) (Inl (ascii ''no asset'')) extractor_init) =
     [\<lparr>success = False, result_text = [],
       error = Some (ascii ''Failed to initialize PDF.js: no asset''), charCount = 0\<rparr>] \<and>
   extractions (PDFExtractor_handleError None extractor_init) =
     [\<lparr>success = False, result_text = [],
       error = Some (ascii ''WebView failed to load: Unknown error''), charCount = 0\<rparr>] \<and>
   extractions (handleMessage None extractor_init) =
     [\<lparr>success = False, result_text = [],
       error = Some (ascii ''Failed to parse extraction result''), charCount = 0\<rparr>] \<and>
   completions (PDFOCRFallback_handleError (Some (ascii ''bad xref'')) ocr_init) =
     [\<lparr>success = False, result_text = [],
       error = Some (ascii ''Failed to render PDF for OCR: bad xref''), pageCount = 0\<rparr>]"
proof -
  have fresh: "mounted extractor_init" "\<not> hasExtracted extractor_init"
    "extractions extractor_init = []"
    by (simp_all add: extractor_init_def)
  have fresh': "\<not> hasCompleted ocr_init" "completions ocr_init = []"
    by (simp_all add: ocr_init_def)
  have strings:
    "ascii ''Failed to initialize PDF.js: '' @ ascii ''no asset'' =
       ascii ''Failed to initialize PDF.js: no asset''"
    "ascii ''WebView failed to load: '' @ or_default None (ascii ''Unknown error'') =
       ascii ''WebView failed to load: Unknown error''"
    "ascii ''Failed to render PDF for OCR: '' @
       or_default (Some (ascii ''bad xref'')) (ascii ''Unknown error'') =
       ascii ''Failed to render PDF for OCR: bad xref''"
    by code_simp+
  from error_handlers_deliver_failure
    [where s = extractor_init and c = ocr_init and offline = "Inr sample_page"
       and msg = "ascii ''no asset''" and description = None
       and e = "Some (ascii ''bad xref'')"]
    fresh fresh' strings
  show ?thesis by simp
qed

text \<open>
  Once \<open>hasExtracted\<close> is set, or while there is no WebView, no event after the load
  calls \<open>onExtracted\<close>.
\<close>

lemma extracted_step:
  assumes "hasExtracted s" "settled_event ev"
  shows "hasExtracted (extractor_step ev s) \<and> extractions (extractor_step ev s) = extractions s"
  using assms
  by (cases ev) (simp_all add: handleMessage_def PDFExtractor_handleError_def)

lemma extracted_run:
  assumes "hasExtracted s" "list_all settled_event evs"
  shows "extractions (extractor_run evs s) = extractions s"
  using assms
proof (induction evs arbitrary: s)
  case Nil
  then show ?case by simp
next
  case (Cons ev evs)
  from Cons.prems have ev: "settled_event ev" and rest: "list_all settled_event evs"
    by simp_all
  from extracted_step [OF Cons.prems(1) ev] Cons.IH [OF _ rest, of "extractor_step ev s"]
  show ?case by simp
qed

lemma no_webview_step:
  assumes "\<not> webview_rendered s" "settled_event ev"
  shows "\<not> webview_rendered (extractor_step ev s) \<and>
         extractions (extractor_step ev s) = extractions s"
  using assms
  by (cases ev) (auto simp: webview_rendered_def split: if_splits)

lemma no_webview_run:
  assumes "\<not> webview_rendered s" "list_all settled_event evs"
  shows "extractions (extractor_run evs s) = extractions s"
  using assms
proof (induction evs arbitrary: s)
  case Nil
  then show ?case by simp
next
  case (Cons ev evs)
  from Cons.prems have ev: "settled_event ev" and rest: "list_all settled_event evs"
    by simp_all
  from no_webview_step [OF Cons.prems(1) ev] Cons.IH [OF _ rest, of "extractor_step ev s"]
  show ?case by simp
qed

text \<open>
  Three of the four errors end the extraction. A failure to generate the page, a
  WebView load error and a render error of the PDF view each deliver one result with
  \<open>success = false\<close>, an empty text and the handler's message followed by the error's
  own, and whatever arrives afterwards delivers nothing more.
\<close>

lemma init_failure_is_terminal:
  assumes "list_all settled_event evs"
  shows "extractions (extractor_run (HtmlLoaded True offline (Inl msg) # evs) extractor_init) =
           [\<lparr>success = False, result_text = [],
             error = Some (ascii ''Failed to initialize PDF.js: '' @ msg), charCount = 0\<rparr>] \<and>
         extractions (extractor_run (HtmlLoaded False (Inl msg') (Inl msg) # evs)
             extractor_init) =
           [\<lparr>success = False, result_text = [],
             error = Some (ascii ''Failed to initialize PDF.js: '' @ msg), charCount = 0\<rparr>]"
proof -
  let ?a = "loadHTML True offline (Inl msg) extractor_init"
  let ?b = "loadHTML False (Inl msg') (Inl msg) extractor_init"
  have a: "\<not> webview_rendered ?a" and b: "\<not> webview_rendered ?b"
    by (simp_all add: loadHTML_def extractor_init_def webview_rendered_def opt_truthy_def)
  have "extractions ?a = [pdfjs_failure (ascii ''Failed to initialize PDF.js: '' @ msg)]"
    and "extractions ?b = [pdfjs_failure (ascii ''Failed to initialize PDF.js: '' @ msg)]"
    by (simp_all add: loadHTML_def extractor_init_def)
  with no_webview_run [OF a assms] no_webview_run [OF b assms]
  show ?thesis by (simp add: pdfjs_failure_def)
qed

lemma webview_error_is_terminal:
  assumes "mounted s" "webview_rendered s" "\<not> hasExtracted s" "list_all settled_event evs"
  shows "extractions (extractor_run (WebViewError description # evs) s) =
           extractions s @
             [\<lparr>success = False, result_text = [],
               error = Some (ascii ''WebView failed to load: '' @
                 or_default description (ascii ''Unknown error'')), charCount = 0\<rparr>]"
proof -
  let ?s = "extractor_step (WebViewError description) s"
  from assms(1-3) have flag: "hasExtracted ?s"
    and one: "extractions ?s = extractions s @
      [pdfjs_failure (ascii ''WebView failed to load: '' @
         or_default description (ascii ''Unknown error''))]"
    by (simp_all add: PDFExtractor_handleError_def)
  from extracted_run [OF flag assms(4)] one show ?thesis
    by (simp add: pdfjs_failure_def)
qed

lemma render_error_is_terminal:
  assumes "\<not> hasCompleted c"
  shows "completions (ocr_run maxPages (RenderError e # evs) c) =
           completions c @
             [\<lparr>success = False, result_text = [],
               error = Some (ascii ''Failed to render PDF for OCR: '' @
                 or_default e (ascii ''Unknown error'')), pageCount = 0\<rparr>]"
proof -
  let ?c = "ocr_step maxPages (RenderError e) c"
  from render_error_step [OF assms, of maxPages e]
  have one: "completions ?c = completions c @
      [\<lparr>success = False, result_text = [], error = Some (render_error_message e),
        pageCount = 0\<rparr>]"
    and flag: "hasCompleted ?c"
    by simp_all
  from completed_run [OF flag, of maxPages evs] one show ?thesis
    by (simp add: render_error_message_def)
qed

text \<open>
  C5. The fourth error is caught and delivered, but it does not end the extraction. A
  message that \<open>parseExtractionResult\<close> rejects makes \<open>handleMessage\<close> call
  \<open>onExtracted\<close> with \<open>success = false\<close>, an empty text and its message, and leaves
  \<open>hasExtracted\<close> unset; the next message is handled as if nothing had been delivered,
  and its result follows the failure.
\<close>

theorem parse_failure_result_is_not_terminal:
  "extractions (extractor_run
      [HtmlLoaded False (Inr sample_page) (Inr sample_page), WebViewMessage None]
      extractor_init) =
     [\<lparr>success = False, result_text = [],
       error = Some (ascii ''Failed to parse extraction result''), charCount = 0\<rparr>] \<and>
   \<not> hasExtracted (extractor_run
      [HtmlLoaded False (Inr sample_page) (Inr sample_page), WebViewMessage None]
      extractor_init) \<and>
   extractions (extractor_run
      [HtmlLoaded False (Inr sample_page) (Inr sample_page), WebViewMessage None,
       WebViewMessage (Some sample_result)] extractor_init) =
     [\<lparr>success = False, result_text = [],
       error = Some (ascii ''Failed to parse extraction result''), charCount = 0\<rparr>,
      sample_result]"
  by code_simp

section \<open>Acceptance of the structured result\<close>








section \<open>Index and retrieval\<close>

lemma terms_of_term_frequencies: "fst ` set (term_frequencies ts) = set ts"
  by (force simp: term_frequencies_def)

lemma index_chunk_text: "chunk_text (index_chunk stopwords c) = chunk_text c"
  by (simp add: index_chunk_def)

lemma index_chunk_idem: "index_chunk stopwords (index_chunk stopwords c) = index_chunk stopwords c"
  by (simp add: index_chunk_def)

lemma shares_term_indexed:
  "shares_term qs (index_chunk stopwords c) \<longleftrightarrow>
     set qs \<inter> set (tokenize stopwords (chunk_text c)) \<noteq> {}"
  by (auto simp: shares_term_def index_chunk_def terms_of_term_frequencies list_ex_iff)

lemma retrieve_set:
  "set (retrieve stopwords idx question k) \<subseteq>
     (\<lambda>c. (c, score idx (tokenize stopwords question) c)) `
       {c \<in> set (chunks idx). shares_term (tokenize stopwords question) c}"
proof -
  let ?qs = "tokenize stopwords question"
  let ?pair = "\<lambda>c. (c, score idx ?qs c)"
  let ?ranked = "sort_key (\<lambda>c. - score idx ?qs c)
      (sort_key ordinal (filter (shares_term ?qs) (chunks idx)))"
  have "set (retrieve stopwords idx question k) \<subseteq> set (map ?pair ?ranked)"
    unfolding retrieve_def Let_def by (rule set_take_subset)
  also have "\<dots> = ?pair ` {c \<in> set (chunks idx). shares_term ?qs c}"
    by simp
  finally show ?thesis .
qed

lemma retrieve_length:
  "length (retrieve stopwords idx question k) =
     min k (length (filter (shares_term (tokenize stopwords question)) (chunks idx)))"
  by (simp add: retrieve_def Let_def min.commute)

text \<open>
  C8. On an index built from any chunks, for any question and limit \<open>k\<close>, \<open>retrieve\<close>
  returns at most \<open>k\<close> results; every result is a chunk of the index whose text has a
  term in common with the question; and the number of results is the smaller of \<open>k\<close>
  and the number of chunks that have such a term, so nothing else fills the result.
\<close>

theorem retrieve_at_most_k_only_overlapping:
  "length (retrieve stopwords (build stopwords d cs) question k) \<le> k \<and>
   (\<forall>r \<in> set (retrieve stopwords (build stopwords d cs) question k).
      fst r \<in> set (chunks (build stopwords d cs)) \<and>
      set (tokenize stopwords question) \<inter>
        set (tokenize stopwords (chunk_text (fst r))) \<noteq> {}) \<and>
   length (retrieve stopwords (build stopwords d cs) question k) =
     min k (length (filter
       (\<lambda>c. set (tokenize stopwords question) \<inter>
          set (tokenize stopwords (chunk_text c)) \<noteq> {}) cs))"
proof (intro conjI ballI)
  let ?idx = "build stopwords d cs"
  let ?qs = "tokenize stopwords question"
  have chunks: "chunks ?idx = map (index_chunk stopwords) cs"
    by (simp add: build_def Let_def)
  show "length (retrieve stopwords ?idx question k) \<le> k"
    by (simp add: retrieve_length)
  show "length (retrieve stopwords ?idx question k) =
      min k (length (filter (\<lambda>c. set ?qs \<inter> set (tokenize stopwords (chunk_text c)) \<noteq> {}) cs))"
    by (simp add: retrieve_length chunks filter_map comp_def shares_term_indexed)
  fix r
  assume "r \<in> set (retrieve stopwords ?idx question k)"
  with retrieve_set [of stopwords ?idx question k]
  have member: "fst r \<in> set (chunks ?idx)" and shares: "shares_term ?qs (fst r)"
    by auto
  from member show "fst r \<in> set (chunks ?idx)" .
  from member obtain c where "fst r = index_chunk stopwords c"
    by (auto simp: chunks)
  with shares show "set ?qs \<inter> set (tokenize stopwords (chunk_text (fst r))) \<noteq> {}"
    by (simp add: shares_term_indexed index_chunk_text)
qed

theorem retrieve_at_most_k_only_overlapping_witness:
  "map (chunk_id \<circ> fst)
     (retrieve some_stopwords (build some_stopwords 1 [cats_chunk]) (ascii ''fur'') 3) = [0] \<and>
   retrieve some_stopwords (build some_stopwords 1 [cats_chunk]) (ascii ''dog'') 3 = []"
proof -
  let ?idx = "build some_stopwords 1 [cats_chunk]"
  have fur: "length (filter
      (\<lambda>c. set (tokenize some_stopwords (ascii ''fur'')) \<inter>
         set (tokenize some_stopwords (chunk_text c)) \<noteq> {}) [cats_chunk]) = 1"
    by code_simp
  have dog: "length (filter
      (\<lambda>c. set (tokenize some_stopwords (ascii ''dog'')) \<inter>
         set (tokenize some_stopwords (chunk_text c)) \<noteq> {}) [cats_chunk]) = 0"
    by code_simp
  have only: "map chunk_id (chunks ?idx) = [0]"
    by code_simp
  note fur_facts = retrieve_at_most_k_only_overlapping
    [where stopwords = some_stopwords and d = 1 and cs = "[cats_chunk]"
       and question = "ascii ''fur''" and k = 3]
  note dog_facts = retrieve_at_most_k_only_overlapping
    [where stopwords = some_stopwords and d = 1 and cs = "[cats_chunk]"
       and question = "ascii ''dog''" and k = 3]
  from fur_facts [THEN conjunct2, THEN conjunct2]
  have "length (retrieve some_stopwords ?idx (ascii ''fur'') 3) =
      min 3 (length (filter
        (\<lambda>c. set (tokenize some_stopwords (ascii ''fur'')) \<inter>
           set (tokenize some_stopwords (chunk_text c)) \<noteq> {}) [cats_chunk]))" .
  then have one: "length (retrieve some_stopwords ?idx (ascii ''fur'') 3) = 1"
    by (simp only: fur)
  then obtain r where r: "retrieve some_stopwords ?idx (ascii ''fur'') 3 = [r]"
    by (cases "retrieve some_stopwords ?idx (ascii ''fur'') 3") auto
  then have "r \<in> set (retrieve some_stopwords ?idx (ascii ''fur'') 3)"
    by simp
  from fur_facts [THEN conjunct2, THEN conjunct1, THEN bspec, OF this]
  have "fst r \<in> set (chunks ?idx)"
    by (rule conjunct1)
  then have "chunk_id (fst r) \<in> set (map chunk_id (chunks ?idx))"
    unfolding set_map by (rule imageI)
  then have "chunk_id (fst r) = 0"
    by (simp only: only) simp
  then have a: "map (chunk_id \<circ> fst) (retrieve some_stopwords ?idx (ascii ''fur'') 3) = [0]"
    by (simp only: r) simp
  from dog_facts [THEN conjunct2, THEN conjunct2]
  have "length (retrieve some_stopwords ?idx (ascii ''dog'') 3) =
      min 3 (length (filter
        (\<lambda>c. set (tokenize some_stopwords (ascii ''dog'')) \<inter>
           set (tokenize some_stopwords (chunk_text c)) \<noteq> {}) [cats_chunk]))" .
  then have "length (retrieve some_stopwords ?idx (ascii ''dog'') 3) = 0"
    by (simp only: dog)
  then have b: "retrieve some_stopwords ?idx (ascii ''dog'') 3 = []"
    by (rule length_0_conv [THEN iffD1])
  from a b show ?thesis by (rule conjI)
qed

text \<open>
  C9. Building the index again from the chunks of a built index gives the same index,
  postings included: the postings are derived from the chunks' texts alone.
\<close>

theorem reindexing_is_idempotent:
  "postings (build stopwords d (chunks (build stopwords d cs))) =
     postings (build stopwords d cs) \<and>
   build stopwords d (chunks (build stopwords d cs)) = build stopwords d cs \<and>
   postings (build stopwords d cs) = postings_of (map (index_chunk stopwords) cs)"
proof -
  have again: "map (index_chunk stopwords) (map (index_chunk stopwords) cs) =
      map (index_chunk stopwords) cs"
    by (induction cs) (simp_all add: index_chunk_idem)
  have "chunks (build stopwords d cs) = map (index_chunk stopwords) cs"
    by (simp add: build_def Let_def)
  then have "build stopwords d (chunks (build stopwords d cs)) = build stopwords d cs"
    unfolding build_def Let_def by (simp only: again)
  moreover have "postings (build stopwords d cs) = postings_of (map (index_chunk stopwords) cs)"
    by (simp add: build_def Let_def)
  ultimately show ?thesis by simp
qed

end
